theory Spec2Isabelle
  imports Complex_Main "HOL-Library.Sublist" "HOL-Library.Log_Nat" "HOL-Library.AList"
begin

section \<open>Configuration and persistent entities\<close>

text \<open>
  \<^verbatim>\<open>Settings\<close> (app/core/config.py) carries the three rate limits; they are read from the
  environment, so they are fields of a record and the defaults are one value of it.
\<close>

record settings =
  RATE_LIMIT_FREE :: int
  RATE_LIMIT_PRO :: int
  RATE_LIMIT_CREATOR :: int

definition default_settings :: settings where
  "default_settings =
     \<lparr>RATE_LIMIT_FREE = 3, RATE_LIMIT_PRO = 50, RATE_LIMIT_CREATOR = 500\<rparr>"

text \<open>
  \<^verbatim>\<open>User\<close> (app/models/models.py), reduced to the columns the analysis endpoints read or
  write. \<^verbatim>\<open>plan\<close> is a free-form string column whose default is \<^verbatim>\<open>"free"\<close>.
\<close>

record user =
  uid :: string
  plan :: string
  analyses_this_month :: int
  total_analyses :: int

section \<open>Plan catalogue and usage policy\<close>

datatype plan_tier = Free | Pro | Creator

datatype decision = Allowed | Denied string

record usage_counter =
  analyses_this_period :: int
  lifetime_analyses :: int

text \<open>
  Modelled from the spec: \<^verbatim>\<open>check_rate_limit\<close> and \<^verbatim>\<open>require_plan\<close> are imported by
  app/api/v1/analyze.py from app/core/security.py, which is not among the sources. The
  definitions \<open>quota_for\<close>, \<open>authorize\<close>, \<open>record_usage\<close>, \<open>tier_order\<close>, \<open>rank\<close>,
  \<open>tier_satisfies\<close> and \<open>authorize_feature\<close> follow sections 4.2 and 4.3 of the
  specification; the quota values are the rate limits of \<^verbatim>\<open>Settings\<close>.
\<close>

fun quota_for :: "settings \<Rightarrow> plan_tier \<Rightarrow> int" where
  "quota_for s Free = RATE_LIMIT_FREE s"
| "quota_for s Pro = RATE_LIMIT_PRO s"
| "quota_for s Creator = RATE_LIMIT_CREATOR s"

definition authorize :: "settings \<Rightarrow> usage_counter \<Rightarrow> plan_tier \<Rightarrow> decision" where
  "authorize s counter tier =
     (if analyses_this_period counter < quota_for s tier then Allowed
      else Denied ''quota_exceeded'')"

definition record_usage :: "usage_counter \<Rightarrow> usage_counter" where
  "record_usage counter =
     counter\<lparr>analyses_this_period := analyses_this_period counter + 1,
             lifetime_analyses := lifetime_analyses counter + 1\<rparr>"

definition tier_order :: "plan_tier list" where
  "tier_order = [Free, Pro, Creator]"

definition rank :: "plan_tier \<Rightarrow> nat" where
  "rank t = length (takeWhile (\<lambda>x. x \<noteq> t) tier_order)"

definition tier_satisfies :: "plan_tier \<Rightarrow> plan_tier \<Rightarrow> bool" where
  "tier_satisfies tier required_tier \<longleftrightarrow> rank required_tier \<le> rank tier"

definition authorize_feature :: "plan_tier \<Rightarrow> plan_tier \<Rightarrow> decision" where
  "authorize_feature tier required_tier =
     (if tier_satisfies tier required_tier then Allowed
      else Denied ''plan_upgrade_required'')"

datatype config_error = ConfigurationError

text \<open>
  The plan-limit lookup as the specification words it (section 4.2, "Unknown tier
  value"): a tier name outside the three known ones is an error. It is kept apart from
  \<open>get_stats\<close> below, which is the lookup the code performs.
\<close>

definition spec_quota_lookup :: "string \<Rightarrow> config_error + int" where
  "spec_quota_lookup p =
     (if p = ''free'' then Inr 3 else if p = ''pro'' then Inr 50
      else if p = ''creator'' then Inr 500 else Inl ConfigurationError)"

section \<open>The statistics endpoint\<close>

text \<open>Python's \<^verbatim>\<open>dict.get(key, default)\<close> on a dictionary given as an association list.\<close>

definition dict_get :: "('k \<times> 'v) list \<Rightarrow> 'k \<Rightarrow> 'v \<Rightarrow> 'v" where
  "dict_get d k dflt = (case map_of d k of None \<Rightarrow> dflt | Some v \<Rightarrow> v)"

definition plan_limits :: "(string \<times> int) list" where
  "plan_limits = [(''free'', 3), (''pro'', 50), (''creator'', 500)]"

text \<open>
  \<^verbatim>\<open>get_stats\<close> (app/api/v1/analyze.py). The two score aggregates \<^verbatim>\<open>average_score\<close> and
  \<^verbatim>\<open>best_score\<close> are database queries over the stored analyses and do not enter the
  plan-limit computation; the record keeps the four integer fields of the response.
\<close>

record user_stats =
  stats_total_analyses :: int
  stats_analyses_this_month :: int
  plan_limit :: int
  remaining_analyses :: int

definition get_stats :: "user \<Rightarrow> user_stats" where
  "get_stats current_user =
     (let limit = dict_get plan_limits (plan current_user) 3
      in \<lparr>stats_total_analyses = total_analyses current_user,
          stats_analyses_this_month = analyses_this_month current_user,
          plan_limit = limit,
          remaining_analyses = max 0 (limit - analyses_this_month current_user)\<rparr>)"

section \<open>Text primitives\<close>

text \<open>
  A script is a Python \<^verbatim>\<open>str\<close>. It is modelled as a \<open>string\<close> whose characters are the
  code points 0 to 255; the character tests below are those of Python on that range.
  \<open>lower\<close> and \<open>upper\<close> fold the ASCII letters, which are the only letters the patterns
  and the pattern names contain.
\<close>

definition lower :: "char \<Rightarrow> char" where
  "lower c = (let n = (of_char c :: nat) in if 65 \<le> n \<and> n \<le> 90 then char_of (n + 32) else c)"

definition upper :: "char \<Rightarrow> char" where
  "upper c = (let n = (of_char c :: nat) in if 97 \<le> n \<and> n \<le> 122 then char_of (n - 32) else c)"

definition is_lower :: "char \<Rightarrow> bool" where
  "is_lower c \<longleftrightarrow> (let n = (of_char c :: nat) in 97 \<le> n \<and> n \<le> 122)"

definition is_upper :: "char \<Rightarrow> bool" where
  "is_upper c \<longleftrightarrow> (let n = (of_char c :: nat) in 65 \<le> n \<and> n \<le> 90)"

definition is_digit :: "char \<Rightarrow> bool" where
  "is_digit c \<longleftrightarrow> (let n = (of_char c :: nat) in 48 \<le> n \<and> n \<le> 57)"

text \<open>\<^verbatim>\<open>str.isspace\<close> on one character: tab to carriage return, the four separators
  28 to 31, the space, and the two Latin-1 spaces 133 and 160.\<close>

definition is_space :: "char \<Rightarrow> bool" where
  "is_space c \<longleftrightarrow>
     (of_char c :: nat) \<in> set [9, 10, 11, 12, 13, 28, 29, 30, 31, 32, 133, 160]"

text \<open>\<^verbatim>\<open>str.split()\<close> without arguments: maximal runs of non-space characters.\<close>

fun split_from :: "string \<Rightarrow> string \<Rightarrow> string list" where
  "split_from word [] = (if word = [] then [] else [word])"
| "split_from word (c # cs) =
     (if is_space c then (if word = [] then split_from [] cs else word # split_from [] cs)
      else split_from (word @ [c]) cs)"

definition split :: "string \<Rightarrow> string list" where
  "split s = split_from [] s"

text \<open>\<^verbatim>\<open>str.replace(old, new)\<close> for one-character arguments.\<close>

definition str_replace :: "char \<Rightarrow> char \<Rightarrow> string \<Rightarrow> string" where
  "str_replace old new s = map (\<lambda>c. if c = old then new else c) s"

text \<open>\<^verbatim>\<open>str.title()\<close>: a letter that follows a letter is lowered, any other letter is
  raised; \<open>previous_is_cased\<close> is the flag of the library's loop.\<close>

fun title_from :: "bool \<Rightarrow> string \<Rightarrow> string" where
  "title_from previous_is_cased [] = []"
| "title_from previous_is_cased (c # cs) =
     (if is_lower c then (if previous_is_cased then c else upper c) # title_from True cs
      else if is_upper c then (if previous_is_cased then lower c else c) # title_from True cs
      else c # title_from False cs)"

definition str_title :: "string \<Rightarrow> string" where
  "str_title s = title_from False s"

text \<open>\<^verbatim>\<open>str(n)\<close> for a natural number.\<close>

definition digit_char :: "nat \<Rightarrow> char" where
  "digit_char d = char_of (48 + d)"

function str_nat :: "nat \<Rightarrow> string" where
  "str_nat n = (if n < 10 then [digit_char n] else str_nat (n div 10) @ [digit_char (n mod 10)])"
  by pat_completeness auto
termination
  by (relation "measure id") auto

declare str_nat.simps [simp del]

section \<open>Regular expressions of the pattern library\<close>

text \<open>
  The six patterns use literals, \<^verbatim>\<open>.\<close>, \<^verbatim>\<open>\d\<close>, one character class, alternation,
  concatenation, \<^verbatim>\<open>?\<close>, \<^verbatim>\<open>+\<close> and bounded repetition, all under the flag \<^verbatim>\<open>(?i)\<close>.
  \<open>rests r s\<close> lists what is left of \<open>s\<close> after each way of matching \<open>r\<close> at its
  start; \<^verbatim>\<open>re.search\<close> only asks whether some position has a match, so the order in
  which a backtracking matcher tries them does not matter.
\<close>

datatype regex =
    Lit string
  | AnyChar
  | Digit
  | OneOf string
  | Alt regex regex
  | Seq regex regex
  | Opt regex
  | Plus regex
  | Repeat regex nat nat

fun lit_rest :: "string \<Rightarrow> string \<Rightarrow> string option" where
  "lit_rest [] s = Some s"
| "lit_rest (p # ps) [] = None"
| "lit_rest (p # ps) (c # cs) = (if lower c = lower p then lit_rest ps cs else None)"

fun iter :: "(string \<Rightarrow> string list) \<Rightarrow> nat \<Rightarrow> nat \<Rightarrow> string \<Rightarrow> string list" where
  "iter f 0 0 s = [s]"
| "iter f 0 (Suc n) s = s # concat (map (iter f 0 n) (f s))"
| "iter f (Suc m) 0 s = []"
| "iter f (Suc m) (Suc n) s = concat (map (iter f m n) (f s))"

primrec rests :: "regex \<Rightarrow> string \<Rightarrow> string list" where
  "rests (Lit w) s = (case lit_rest w s of None \<Rightarrow> [] | Some t \<Rightarrow> [t])"
| "rests AnyChar s = (case s of [] \<Rightarrow> [] | c # cs \<Rightarrow> if c = CHR 0x0A then [] else [cs])"
| "rests Digit s = (case s of [] \<Rightarrow> [] | c # cs \<Rightarrow> if is_digit c then [cs] else [])"
| "rests (OneOf k) s =
     (case s of [] \<Rightarrow> [] | c # cs \<Rightarrow> if lower c \<in> set (map lower k) then [cs] else [])"
| "rests (Alt a b) s = rests a s @ rests b s"
| "rests (Seq a b) s = concat (map (rests b) (rests a s))"
| "rests (Opt a) s = rests a s @ [s]"
| "rests (Plus a) s = iter (rests a) 1 (max 1 (length s)) s"
| "rests (Repeat a m n) s = iter (rests a) m n s"

fun re_search :: "regex \<Rightarrow> string \<Rightarrow> bool" where
  "re_search r [] = (rests r [] \<noteq> [])"
| "re_search r (c # cs) = (rests r (c # cs) \<noteq> [] \<or> re_search r cs)"

text \<open>An alternation of literals, \<^verbatim>\<open>(w1|w2|...)\<close>.\<close>

fun any_of :: "string list \<Rightarrow> regex" where
  "any_of [] = OneOf []"
| "any_of [w] = Lit w"
| "any_of (w # ws) = Alt (Lit w) (any_of ws)"

section \<open>The viral pattern detector\<close>

text \<open>\<^verbatim>\<open>ViralPatternDetector.VIRAL_PATTERNS\<close> (app/core/analyzer.py), in the order of the
  dictionary literal, which is the order in which Python iterates it.\<close>

definition VIRAL_PATTERNS :: "(string \<times> regex) list" where
  "VIRAL_PATTERNS =
    [(''problem_agitate_solution'',
        Seq (any_of [''problem'', ''issue'', ''struggle''])
       (Seq (Repeat AnyChar 50 500)
       (Seq (any_of [''worse'', ''imagine'', ''what if''])
       (Seq (Repeat AnyChar 50 500)
            (any_of [''solution'', ''answer'', ''fix'']))))),
     (''curiosity_gap'',
        any_of [''you won't believe'', ''secret'', ''hidden'', ''nobody tells you'',
                ''shocking'']),
     (''social_proof'',
        Seq (Plus Digit)
       (Seq (Opt (OneOf ''kKmM''))
       (Seq (Lit '' '')
            (any_of [''people'', ''viewers'', ''subscribers'', ''users''])))),
     (''transformation'',
        Alt (Seq (Lit ''from '') (Seq (Repeat AnyChar 5 30)
               (Seq (Lit '' to '') (Repeat AnyChar 5 30))))
       (Alt (Seq (Lit ''before '') (Seq (Repeat AnyChar 5 30) (Lit '' after'')))
            (Lit ''went from''))),
     (''contrarian'',
        any_of [''stop'', ''don't'', ''never'', ''why you shouldn't'', ''the truth about'',
                ''myth'']),
     (''personal_story'',
        Seq (any_of [''I'', ''my'', ''me''])
       (Seq (Repeat AnyChar 20 200)
            (any_of [''realized'', ''learned'', ''discovered'', ''failed''])))]"

text \<open>The name under which a pattern is reported:
  \<^verbatim>\<open>pattern_name.replace("_", " ").title()\<close>.\<close>

definition display_name :: "string \<Rightarrow> string" where
  "display_name pattern_name = str_title (str_replace CHR ''_'' CHR '' '' pattern_name)"

text \<open>\<^verbatim>\<open>detect_patterns\<close>: the loop over the library, appending to \<open>detected\<close>.\<close>

fun detect_loop :: "(string \<times> regex) list \<Rightarrow> string \<Rightarrow> string list \<Rightarrow> string list" where
  "detect_loop [] script detected = detected"
| "detect_loop ((pattern_name, rx) # rest) script detected =
     detect_loop rest script
       (if re_search rx script then detected @ [display_name pattern_name] else detected)"

definition detect_patterns :: "string \<Rightarrow> string list" where
  "detect_patterns script = detect_loop VIRAL_PATTERNS script []"

definition pattern_names :: "string list" where
  "pattern_names = map (display_name \<circ> fst) VIRAL_PATTERNS"

section \<open>Binary floating point, as far as the duration estimate needs it\<close>

text \<open>
  Python's \<^verbatim>\<open>float\<close> is IEEE binary64. A finite float is the rational it denotes, and an
  operation returns the exact result rounded to the nearest float, ties to the even
  mantissa. \<open>fl\<close> is that rounding for the exact result \<open>q\<close>: the 53-bit mantissa is
  \<open>q\<close> scaled into the binade of \<open>q\<close> and rounded. Word counts divided by 150 and
  multiplied by 60 stay far from the subnormal and overflow ranges, which \<open>fl\<close> does
  not treat.
\<close>

definition round_half_even :: "rat \<Rightarrow> int" where
  "round_half_even q =
     (let f = \<lfloor>q\<rfloor>; d = q - of_int f
      in if d < 1 / 2 then f else if 1 / 2 < d then f + 1 else if even f then f else f + 1)"

text \<open>For \<open>q > 0\<close>, \<open>ilog2 q\<close> is the exponent \<open>k\<close> with \<open>2\<^sup>k \<le> q < 2\<^sup>k\<^sup>+\<^sup>1\<close>.\<close>

definition ilog2 :: "rat \<Rightarrow> int" where
  "ilog2 q =
     (if 1 \<le> q then int (floorlog 2 (nat \<lfloor>q\<rfloor>)) - 1
      else - int (floorlog 2 (nat (\<lceil>1 / q\<rceil> - 1))))"

definition fl :: "rat \<Rightarrow> rat" where
  "fl q =
     (if q \<le> 0 then 0
      else let k = ilog2 q
           in of_int (round_half_even (q * 2 powi (52 - k))) * 2 powi (k - 52))"

text \<open>\<^verbatim>\<open>f"{x:.1f}"\<close> for \<open>x \<ge> 0\<close>: the decimal with one fractional digit nearest to the
  float's exact value, ties to even.\<close>

definition format_1f :: "rat \<Rightarrow> string" where
  "format_1f x =
     (let t = nat (round_half_even (x * 10))
      in str_nat (t div 10) @ ''.'' @ str_nat (t mod 10))"

section \<open>The script analyzer\<close>

text \<open>\<^verbatim>\<open>ScriptAnalyzer._estimate_duration\<close>: \<^verbatim>\<open>word_count / 150\<close> is the true division of
  two integers, \<^verbatim>\<open>minutes * 60\<close> a float product, \<^verbatim>\<open>int\<close> truncates.\<close>

definition estimate_duration :: "string \<Rightarrow> string" where
  "estimate_duration script =
     (let word_count = length (split script);
          minutes = fl (of_nat word_count / 150)
      in if minutes < 1 then str_nat (nat \<lfloor>fl (minutes * 60)\<rfloor>) @ '' seconds''
         else if minutes < 10 then format_1f minutes @ '' minutes''
         else str_nat (nat \<lfloor>minutes\<rfloor>) @ '' minutes'')"

text \<open>A decoded JSON value; a Python \<^verbatim>\<open>dict\<close> is an association list with distinct keys.\<close>

datatype json =
    JNull
  | JBool bool
  | JInt int
  | JFloat rat
  | JStr string
  | JArr "json list"
  | JObj "(string \<times> json) list"

type_synonym py_dict = "(string \<times> json) list"

text \<open>An exception is represented by its message, \<^verbatim>\<open>str(e)\<close>.\<close>

type_synonym exn = string

text \<open>
  The external scoring collaborator: the chat-completion request built from the script
  and the script type, followed by \<^verbatim>\<open>json.loads\<close> of the returned content. It either
  raises (transport error, timeout, content that is not JSON) or yields the decoded
  value; it is not a function of its arguments, so it reads and advances a state \<open>'w\<close>
  of the outside world. A run that never calls it leaves that state as it was.
\<close>

type_synonym 'w scoring_service = "'w \<Rightarrow> string \<Rightarrow> string \<Rightarrow> (exn + json) \<times> 'w"

text \<open>\<^verbatim>\<open>type(x).__name__\<close> of a decoded JSON value.\<close>

fun type_name :: "json \<Rightarrow> string" where
  "type_name JNull = ''NoneType''"
| "type_name (JBool b) = ''bool''"
| "type_name (JInt i) = ''int''"
| "type_name (JFloat x) = ''float''"
| "type_name (JStr s) = ''str''"
| "type_name (JArr xs) = ''list''"
| "type_name (JObj d) = ''dict''"

text \<open>The \<^verbatim>\<open>TypeError\<close> message of \<^verbatim>\<open>result["word_count"] = ...\<close> when the decoded value
  is not a dictionary: a list rejects the string index, every other value has no item
  assignment at all.\<close>

fun setitem_error :: "json \<Rightarrow> string" where
  "setitem_error (JArr xs) = ''list indices must be integers or slices, not str''"
| "setitem_error other =
     [CHR 0x27] @ type_name other @ [CHR 0x27] @ '' object does not support item assignment''"

definition setitem :: "string \<Rightarrow> json \<Rightarrow> py_dict \<Rightarrow> py_dict" where
  "setitem k v d = AList.update k v d"

text \<open>\<^verbatim>\<open>ScriptAnalyzer.analyze_script\<close>: one request to the collaborator, then the three
  metadata entries; every exception is re-raised with the prefix of the handler.\<close>

definition add_metadata :: "string \<Rightarrow> py_dict \<Rightarrow> py_dict" where
  "add_metadata script result =
     (let word_count = length (split script);
          r1 = setitem ''word_count'' (JInt (int word_count)) result;
          r2 = setitem ''estimated_duration'' (JStr (estimate_duration script)) r1
      in setitem ''script_length''
           (JStr (if word_count < 500 then ''short''
                  else if word_count < 1500 then ''medium'' else ''long'')) r2)"

definition ScriptAnalyzer_analyze_script ::
  "'w scoring_service \<Rightarrow> 'w \<Rightarrow> string \<Rightarrow> string \<Rightarrow> (exn + py_dict) \<times> 'w" where
  "ScriptAnalyzer_analyze_script service w script script_type =
     (case service w script script_type of
        (Inl e, w') \<Rightarrow> (Inl (''Failed to analyze script: '' @ e), w')
      | (Inr (JObj result), w') \<Rightarrow> (Inr (add_metadata script result), w')
      | (Inr other, w') \<Rightarrow> (Inl (''Failed to analyze script: '' @ setitem_error other), w'))"

section \<open>The analysis endpoint\<close>

record analyze_script_request =
  script :: string
  script_type :: string
  title :: "string option"

text \<open>\<^verbatim>\<open>Analysis\<close> (app/models/models.py) without the two columns the database fills in
  (\<^verbatim>\<open>id\<close>, \<^verbatim>\<open>created_at\<close>). The scored columns hold whatever the decoded response held.\<close>

record analysis =
  user_id :: string
  script_text :: string
  stored_script_type :: string
  stored_title :: "string option"
  overall_score :: json
  virality_prediction :: json
  scores :: json
  strengths :: json
  weaknesses :: json
  improvements :: json
  viral_patterns_detected :: json
  viral_patterns_missing :: json
  word_count :: json
  estimated_duration :: json
  estimated_retention :: "json option"

datatype http_exception = HTTPException nat string

text \<open>\<^verbatim>\<open>result[key]\<close>: a missing key raises \<^verbatim>\<open>KeyError\<close>, whose message is the quoted key.\<close>

definition getitem :: "py_dict \<Rightarrow> string \<Rightarrow> exn + json" where
  "getitem d k = (case map_of d k of None \<Rightarrow> Inl ([CHR 0x27] @ k @ [CHR 0x27]) | Some v \<Rightarrow> Inr v)"

text \<open>The keyword arguments of \<^verbatim>\<open>Analysis(...)\<close> are evaluated from left to right, so the
  first missing key decides the error.\<close>

definition then_get :: "py_dict \<Rightarrow> string \<Rightarrow> (json \<Rightarrow> exn + 'a) \<Rightarrow> exn + 'a" where
  "then_get d k continue = (case getitem d k of Inl e \<Rightarrow> Inl e | Inr v \<Rightarrow> continue v)"

definition build_analysis ::
  "user \<Rightarrow> analyze_script_request \<Rightarrow> py_dict \<Rightarrow> exn + analysis" where
  "build_analysis current_user request result =
     then_get result ''overall_score'' (\<lambda>v1.
     then_get result ''virality_prediction'' (\<lambda>v2.
     then_get result ''scores'' (\<lambda>v3.
     then_get result ''strengths'' (\<lambda>v4.
     then_get result ''weaknesses'' (\<lambda>v5.
     then_get result ''improvements'' (\<lambda>v6.
     then_get result ''word_count'' (\<lambda>v7.
     then_get result ''estimated_duration'' (\<lambda>v8.
        Inr \<lparr>user_id = uid current_user,
             script_text = script request,
             stored_script_type = script_type request,
             stored_title = title request,
             overall_score = v1,
             virality_prediction = v2,
             scores = v3,
             strengths = v4,
             weaknesses = v5,
             improvements = v6,
             viral_patterns_detected = dict_get result ''viral_patterns_detected'' (JArr []),
             viral_patterns_missing = dict_get result ''viral_patterns_missing'' (JArr []),
             word_count = v7,
             estimated_duration = v8,
             estimated_retention = map_of result ''estimated_retention''\<rparr>))))))))"

text \<open>
  The body of the \<^verbatim>\<open>try\<close> block of the endpoint \<^verbatim>\<open>analyze_script\<close>. It returns the raised
  exception or the stored row, together with the user object as the block left it, the
  table of analyses and the outside world. \<open>commit\<close> is the outcome of
  \<^verbatim>\<open>db.commit()\<close>: \<open>None\<close>, or the exception the database raised.
\<close>

definition analyze_try ::
  "'w scoring_service \<Rightarrow> exn option \<Rightarrow> analyze_script_request \<Rightarrow> user \<Rightarrow> analysis list \<Rightarrow> 'w
     \<Rightarrow> (exn + analysis) \<times> user \<times> analysis list \<times> 'w" where
  "analyze_try service commit request current_user analyses w =
     (case ScriptAnalyzer_analyze_script service w (script request) (script_type request) of
        (Inl e, w') \<Rightarrow> (Inl e, current_user, analyses, w')
      | (Inr result, w') \<Rightarrow>
          (let detected_patterns = detect_patterns (script request);
               result' = setitem ''viral_patterns_detected''
                           (JArr (map JStr detected_patterns)) result
           in case build_analysis current_user request result' of
                Inl e \<Rightarrow> (Inl e, current_user, analyses, w')
              | Inr row \<Rightarrow>
                  (let counted = current_user
                         \<lparr>analyses_this_month := analyses_this_month current_user + 1,
                          total_analyses := total_analyses current_user + 1\<rparr>
                   in case commit of
                        Some e \<Rightarrow> (Inl e, counted, analyses, w')
                      | None \<Rightarrow> (Inr row, counted, analyses @ [row], w'))))"

record 'w outcome =
  response :: "http_exception + analysis"
  user_after :: user
  analyses_after :: "analysis list"
  world_after :: 'w

text \<open>
  The endpoint \<^verbatim>\<open>analyze_script\<close> (app/api/v1/analyze.py). \<open>check_rate_limit\<close> is the
  imported predicate, taken as a parameter. \<^verbatim>\<open>db.rollback()\<close> discards the uncommitted
  changes of the session, the attributes of the user object among them, so after the
  handler the user is as it was loaded.
\<close>

definition analyze_script ::
  "(user \<Rightarrow> bool) \<Rightarrow> 'w scoring_service \<Rightarrow> exn option \<Rightarrow> analyze_script_request \<Rightarrow> user
     \<Rightarrow> analysis list \<Rightarrow> 'w \<Rightarrow> 'w outcome" where
  "analyze_script check_rate_limit service commit request current_user analyses w =
     (if \<not> check_rate_limit current_user
      then \<lparr>response = Inl (HTTPException 429
                ''Monthly limit reached. Upgrade to Pro for more analyses.''),
            user_after = current_user, analyses_after = analyses, world_after = w\<rparr>
      else case analyze_try service commit request current_user analyses w of
             (Inl e, u', analyses', w') \<Rightarrow>
               \<lparr>response = Inl (HTTPException 500 (''Analysis failed: '' @ e)),
                user_after = current_user, analyses_after = analyses, world_after = w'\<rparr>
           | (Inr row, u', analyses', w') \<Rightarrow>
               \<lparr>response = Inr row, user_after = u', analyses_after = analyses',
                world_after = w'\<rparr>)"

section \<open>Sample inputs\<close>

text \<open>A collaborator that gives one fixed answer and counts how often it was called.\<close>

definition counting_service :: "(exn + json) \<Rightarrow> nat scoring_service" where
  "counting_service answer w s t = (answer, Suc w)"

definition scenario_script :: string where
  "scenario_script = ''Did you know that 95% of people quit... I realized I had to change.''"

definition plain_script :: string where
  "plain_script = ''Today we talk about gardening tools and how to keep them clean.''"

definition well_formed_fields :: py_dict where
  "well_formed_fields =
     [(''overall_score'', JFloat (17 / 2)),
      (''virality_prediction'', JStr ''High''),
      (''scores'', JObj [(''hook'', JInt 9), (''cta'', JInt 7)]),
      (''strengths'', JArr [JStr ''Strong hook'']),
      (''weaknesses'', JArr [JStr ''CTA feels forced'']),
      (''improvements'', JArr [])]"

definition well_formed_response :: json where
  "well_formed_response = JObj well_formed_fields"

definition out_of_range_response :: json where
  "out_of_range_response = JObj [(''overall_score'', JInt 42)]"

definition plain_request :: analyze_script_request where
  "plain_request = \<lparr>script = plain_script, script_type = ''general'', title = None\<rparr>"

definition user_at_quota :: user where
  "user_at_quota = \<lparr>uid = ''u1'', plan = ''free'', analyses_this_month = 3, total_analyses = 3\<rparr>"

definition user_under_quota :: user where
  "user_under_quota =
     \<lparr>uid = ''u2'', plan = ''free'', analyses_this_month = 2, total_analyses = 8\<rparr>"

text \<open>The rate-limit predicate of a free-plan user under the default settings, by the
  policy \<open>authorize\<close>.\<close>

definition free_plan_check :: "user \<Rightarrow> bool" where
  "free_plan_check u \<longleftrightarrow>
     authorize default_settings
       \<lparr>analyses_this_period = analyses_this_month u, lifetime_analyses = total_analyses u\<rparr>
       Free = Allowed"

text \<open>One successful request: a free-plan user below the quota, the scenario script,
  in which the personal-story pattern is detected, and a response that names this very
  pattern, and a name outside the library, in its \<^verbatim>\<open>viral_patterns_missing\<close>.\<close>

definition overlapping_fields :: py_dict where
  "overlapping_fields =
     well_formed_fields
     @ [(''viral_patterns_missing'', JArr [JStr ''Personal Story'', JStr ''Contrarian take''])]"

definition overlapping_response :: json where
  "overlapping_response = JObj overlapping_fields"

definition scenario_request :: analyze_script_request where
  "scenario_request = \<lparr>script = scenario_script, script_type = ''general'', title = None\<rparr>"

definition scenario_run :: "nat outcome" where
  "scenario_run =
     analyze_script free_plan_check (counting_service (Inr overlapping_response)) None
       scenario_request user_under_quota [] 0"

text \<open>A script of \<open>n\<close> one-letter words.\<close>

definition repeated_word :: "nat \<Rightarrow> string" where
  "repeated_word n = concat (replicate n ''w '')"

text \<open>The strings of a JSON array, for reading the two stored pattern lists as sets.\<close>

fun json_names :: "json \<Rightarrow> string set" where
  "json_names (JArr xs) = {s. JStr s \<in> set xs}"
| "json_names other = {}"

section \<open>Properties of the usage policy\<close>

lemma rank_values: "rank Free = 0" "rank Pro = 1" "rank Creator = 2"
  by (simp_all add: rank_def tier_order_def)

text \<open>
  C1. The quota check allows an analysis exactly when the period counter is strictly
  below the tier's quota; one below the quota it allows, at the quota it denies with the
  reason \<^verbatim>\<open>quota_exceeded\<close>.
\<close>

theorem authorize_iff_under_quota:
  "(authorize s c t = Allowed \<longleftrightarrow> analyses_this_period c < quota_for s t)
   \<and> authorize s (c\<lparr>analyses_this_period := quota_for s t - 1\<rparr>) t = Allowed
   \<and> authorize s (c\<lparr>analyses_this_period := quota_for s t\<rparr>) t = Denied ''quota_exceeded''"
  by (simp add: authorize_def)

text \<open>
  C9. Feature gating follows the explicit order free, pro, creator: a tier passes exactly
  when its rank is at least the required rank, so free is refused the pro features with
  the reason \<^verbatim>\<open>plan_upgrade_required\<close> while pro and creator are admitted.
\<close>

theorem authorize_feature_by_rank:
  "(authorize_feature t r = Allowed \<longleftrightarrow> rank r \<le> rank t)
   \<and> rank Free < rank Pro \<and> rank Pro \<le> rank Creator
   \<and> authorize_feature Free Pro = Denied ''plan_upgrade_required''
   \<and> authorize_feature Pro Pro = Allowed
   \<and> authorize_feature Creator Pro = Allowed"
  by (simp add: authorize_feature_def tier_satisfies_def rank_values)

text \<open>
  C5, as the code has it. For a plan string outside free, pro and creator the statistics
  endpoint does not fail: the lookup falls back to the limit 3, and the remaining
  analyses are counted against that limit.
\<close>

theorem get_stats_unknown_plan_defaults:
  assumes "plan u \<notin> {''free'', ''pro'', ''creator''}"
  shows "plan_limit (get_stats u) = 3
       \<and> remaining_analyses (get_stats u) = max 0 (3 - analyses_this_month u)"
  using assms by (simp add: get_stats_def dict_get_def plan_limits_def)

theorem get_stats_unknown_plan_defaults_witness:
  "''team'' \<notin> {''free'', ''pro'', ''creator''}
   \<and> plan_limit (get_stats \<lparr>uid = ''u1'', plan = ''team'', analyses_this_month = 1,
      total_analyses = 7\<rparr>) = 3
   \<and> remaining_analyses (get_stats \<lparr>uid = ''u1'', plan = ''team'', analyses_this_month = 1,
      total_analyses = 7\<rparr>) = 2"
  using get_stats_unknown_plan_defaults
    [of "\<lparr>uid = ''u1'', plan = ''team'', analyses_this_month = 1, total_analyses = 7\<rparr>"]
  by simp

text \<open>
  C5, as the specification states it, fails on the code: for the plan \<^verbatim>\<open>enterprise\<close> the
  specified lookup is a configuration error, while \<open>get_stats\<close> answers with the limit 3.
\<close>

theorem get_stats_unknown_plan_counterexample:
  "spec_quota_lookup ''enterprise'' = Inl ConfigurationError
   \<and> plan_limit (get_stats \<lparr>uid = ''u2'', plan = ''enterprise'', analyses_this_month = 0,
        total_analyses = 0\<rparr>) = 3"
  by (simp add: spec_quota_lookup_def get_stats_def dict_get_def plan_limits_def)

section \<open>Properties of the pattern detector\<close>

lemma detect_loop_filter:
  "detect_loop ps s acc =
     acc @ map (display_name \<circ> fst) (filter (\<lambda>(n, r). re_search r s) ps)"
  by (induction ps s acc rule: detect_loop.induct) auto

lemma detect_patterns_filter:
  "detect_patterns s =
     map (display_name \<circ> fst) (filter (\<lambda>(n, r). re_search r s) VIRAL_PATTERNS)"
  by (simp add: detect_patterns_def detect_loop_filter)

lemma pattern_names_eval:
  "pattern_names = [''Problem Agitate Solution'', ''Curiosity Gap'', ''Social Proof'',
     ''Transformation'', ''Contrarian'', ''Personal Story'']"
  by code_simp

lemma pattern_keys_eval:
  "map fst VIRAL_PATTERNS = [''problem_agitate_solution'', ''curiosity_gap'', ''social_proof'',
     ''transformation'', ''contrarian'', ''personal_story'']"
  by (simp add: VIRAL_PATTERNS_def)

lemma detect_patterns_subset: "set (detect_patterns s) \<subseteq> set pattern_names"
  unfolding detect_patterns_filter pattern_names_def by auto

lemma detect_patterns_subseq: "subseq (detect_patterns s) pattern_names"
  unfolding detect_patterns_filter pattern_names_def
  by (intro subseq_map subseq_filter_left)

lemma detect_patterns_distinct: "distinct (detect_patterns s)"
proof -
  have "distinct (map (display_name \<circ> fst) VIRAL_PATTERNS)"
    using pattern_names_eval unfolding pattern_names_def by simp
  then show ?thesis
    unfolding detect_patterns_filter by (rule distinct_map_filter)
qed

lemma scenario_detection: "detect_patterns scenario_script = [''Personal Story'']"
  unfolding scenario_script_def by code_simp

lemma plain_detection: "detect_patterns plain_script = []"
  unfolding plain_script_def by code_simp

text \<open>
  C10. Whatever the script, the detector returns a list without repetitions, taken in
  library order from the six display names; a display name is the library key with
  underscores replaced by spaces and every word capitalised, never the raw key.
\<close>

theorem detect_patterns_shape:
  "distinct (detect_patterns s)
   \<and> subseq (detect_patterns s) pattern_names
   \<and> pattern_names = map (display_name \<circ> fst) VIRAL_PATTERNS
   \<and> pattern_names = [''Problem Agitate Solution'', ''Curiosity Gap'', ''Social Proof'',
        ''Transformation'', ''Contrarian'', ''Personal Story'']
   \<and> display_name ''problem_agitate_solution'' = ''Problem Agitate Solution''
   \<and> set (detect_patterns s) \<inter> set (map fst VIRAL_PATTERNS) = {}"
proof -
  have d: "distinct pattern_names"
    by (simp add: pattern_names_eval)
  have sub: "subseq (detect_patterns s) pattern_names"
    unfolding detect_patterns_filter pattern_names_def
    by (intro subseq_map subseq_filter_left)
  have dist: "distinct (detect_patterns s)"
    unfolding detect_patterns_filter
    using d unfolding pattern_names_def by (rule distinct_map_filter)
  have dn: "display_name ''problem_agitate_solution'' = ''Problem Agitate Solution''"
    by code_simp
  have "set pattern_names \<inter> set (map fst VIRAL_PATTERNS) = {}"
    unfolding pattern_names_eval pattern_keys_eval by simp
  then have disj: "set (detect_patterns s) \<inter> set (map fst VIRAL_PATTERNS) = {}"
    using detect_patterns_subset [of s] by blast
  show ?thesis
    using d sub dist dn disj pattern_names_eval pattern_names_def by simp
qed

text \<open>
  C8, as the code has it. On the scenario script the detector reports the personal-story
  pattern and nothing else. The social-proof matcher wants digits, an optional k or m,
  one space and then people, viewers, subscribers or users; in \<^verbatim>\<open>95% of people\<close> a
  percent sign follows the digits.
\<close>

theorem scenario_detects_personal_story_only:
  "scenario_script = ''Did you know that 95% of people quit... I realized I had to change.''
   \<and> detect_patterns scenario_script = [''Personal Story'']
   \<and> ''Personal Story'' \<in> set (detect_patterns scenario_script)
   \<and> ''Social Proof'' \<notin> set (detect_patterns scenario_script)"
  by (simp add: scenario_detection) (simp add: scenario_script_def)

text \<open>
  C8, as the specification states it, fails: the detected set of the scenario script
  does not hold both the social-proof and the personal-story pattern.
\<close>

theorem scenario_social_proof_counterexample:
  "\<not> (''Social Proof'' \<in> set (detect_patterns scenario_script)
      \<and> ''Personal Story'' \<in> set (detect_patterns scenario_script))"
  by (simp add: scenario_detection)

section \<open>Properties of the analysis endpoint\<close>

lemma map_of_setitem: "map_of (setitem k v d) k' = (if k' = k then Some v else map_of d k')"
  by (simp add: setitem_def update_conv')

lemma dict_get_setitem:
  "dict_get (setitem k v d) k' dflt = (if k' = k then v else dict_get d k' dflt)"
  by (simp add: dict_get_def map_of_setitem)

lemma map_of_add_metadata:
  "k \<notin> {''word_count'', ''estimated_duration'', ''script_length''}
   \<Longrightarrow> map_of (add_metadata s d) k = map_of d k"
  by (simp add: add_metadata_def Let_def map_of_setitem)

lemma build_analysis_patterns:
  assumes "build_analysis u req d = Inr row"
  shows "viral_patterns_detected row = dict_get d ''viral_patterns_detected'' (JArr [])
       \<and> viral_patterns_missing row = dict_get d ''viral_patterns_missing'' (JArr [])"
  using assms
  by (auto simp: build_analysis_def then_get_def split: sum.splits)

text \<open>
  C3. When the rate-limit check refuses the user, which is what the policy does for a
  counter that has reached the quota, the endpoint answers 429 and nothing else happens:
  the outside world is as before, so the scoring collaborator was not called, and neither
  the user nor the table of analyses changes.
\<close>

theorem over_quota_denied_before_scoring:
  assumes "\<not> check_rate_limit u"
  shows "analyze_script check_rate_limit service commit req u rows w =
     \<lparr>response = Inl (HTTPException 429
         ''Monthly limit reached. Upgrade to Pro for more analyses.''),
      user_after = u, analyses_after = rows, world_after = w\<rparr>"
  using assms by (simp add: analyze_script_def)

theorem over_quota_denied_before_scoring_witness:
  "\<not> free_plan_check user_at_quota
   \<and> analyses_this_month user_at_quota = quota_for default_settings Free
   \<and> analyze_script free_plan_check (counting_service (Inr well_formed_response)) None
       plain_request user_at_quota [] 0 =
     \<lparr>response = Inl (HTTPException 429
         ''Monthly limit reached. Upgrade to Pro for more analyses.''),
      user_after = user_at_quota, analyses_after = [], world_after = 0\<rparr>"
proof -
  have h: "\<not> free_plan_check user_at_quota"
    by (simp add: free_plan_check_def user_at_quota_def authorize_def default_settings_def)
  have q: "analyses_this_month user_at_quota = quota_for default_settings Free"
    by (simp add: user_at_quota_def default_settings_def)
  show ?thesis
    using h q over_quota_denied_before_scoring
      [where check_rate_limit = free_plan_check and u = user_at_quota
         and service = "counting_service (Inr well_formed_response)" and commit = None
         and req = plain_request and rows = "[]" and w = "0::nat"]
    by simp
qed

text \<open>
  C2. When the scoring step fails, the \<^verbatim>\<open>try\<close> block is left before the two increments:
  the user object it leaves behind is the one it was given. The endpoint then answers 500
  and the user's \<^verbatim>\<open>analyses_this_month\<close> and \<^verbatim>\<open>total_analyses\<close> and the table of analyses
  are unchanged.
\<close>

theorem failed_scoring_consumes_no_quota:
  assumes "fst (ScriptAnalyzer_analyze_script service w (script req) (script_type req)) = Inl e"
  shows "analyze_try service commit req u rows w =
           (Inl e, u, rows, snd (service w (script req) (script_type req)))
       \<and> user_after (analyze_script check_rate_limit service commit req u rows w) = u
       \<and> analyses_this_month
           (user_after (analyze_script check_rate_limit service commit req u rows w))
           = analyses_this_month u
       \<and> total_analyses
           (user_after (analyze_script check_rate_limit service commit req u rows w))
           = total_analyses u
       \<and> analyses_after (analyze_script check_rate_limit service commit req u rows w) = rows
       \<and> (check_rate_limit u \<longrightarrow>
            response (analyze_script check_rate_limit service commit req u rows w)
              = Inl (HTTPException 500 (''Analysis failed: '' @ e)))"
proof -
  obtain r w' where sa: "ScriptAnalyzer_analyze_script service w (script req) (script_type req) = (r, w')"
    by (cases "ScriptAnalyzer_analyze_script service w (script req) (script_type req)")
  with assms have r: "r = Inl e" by simp
  have w': "w' = snd (service w (script req) (script_type req))"
    using sa by (auto simp: ScriptAnalyzer_analyze_script_def split: prod.splits sum.splits json.splits)
  have t: "analyze_try service commit req u rows w = (Inl e, u, rows, w')"
    by (simp add: analyze_try_def sa r)
  show ?thesis
    by (simp add: analyze_script_def t w')
qed

theorem failed_scoring_consumes_no_quota_witness:
  "fst (ScriptAnalyzer_analyze_script (counting_service (Inl ''Request timed out'')) 0
     (script plain_request) (script_type plain_request))
     = Inl ''Failed to analyze script: Request timed out''
   \<and> free_plan_check user_under_quota
   \<and> analyze_script free_plan_check (counting_service (Inl ''Request timed out'')) None
       plain_request user_under_quota [] 0 =
     \<lparr>response = Inl (HTTPException 500
         ''Analysis failed: Failed to analyze script: Request timed out''),
      user_after = user_under_quota, analyses_after = [], world_after = 1\<rparr>"
proof -
  have h: "fst (ScriptAnalyzer_analyze_script (counting_service (Inl ''Request timed out'')) 0
     (script plain_request) (script_type plain_request))
     = Inl ''Failed to analyze script: Request timed out''"
    by (simp add: ScriptAnalyzer_analyze_script_def counting_service_def)
  have c: "free_plan_check user_under_quota"
    by (simp add: free_plan_check_def user_under_quota_def authorize_def default_settings_def)
  have "world_after (analyze_script free_plan_check (counting_service (Inl ''Request timed out'')) None
       plain_request user_under_quota [] 0) = 1"
    using c by (simp add: analyze_script_def analyze_try_def ScriptAnalyzer_analyze_script_def counting_service_def)
  then show ?thesis
    using h c failed_scoring_consumes_no_quota
      [where service = "counting_service (Inl ''Request timed out'')" and w = "0::nat"
         and req = plain_request and e = "''Failed to analyze script: Request timed out''"
         and commit = None and u = user_under_quota and rows = "[]"
         and check_rate_limit = free_plan_check]
    by (cases "analyze_script free_plan_check (counting_service (Inl ''Request timed out'')) None
       plain_request user_under_quota [] 0") simp
qed

lemma analyzer_result:
  "service w s t = (Inr (JObj d), w')
   \<Longrightarrow> ScriptAnalyzer_analyze_script service w s t = (Inr (add_metadata s d), w')"
  by (simp add: ScriptAnalyzer_analyze_script_def)

lemma analyzer_world:
  "snd (ScriptAnalyzer_analyze_script service w s t) = snd (service w s t)"
  by (auto simp: ScriptAnalyzer_analyze_script_def split: prod.splits sum.splits json.splits)

lemma analyzer_fails_iff:
  "isl (fst (ScriptAnalyzer_analyze_script service w s t))
   \<longleftrightarrow> (\<forall>d. fst (service w s t) \<noteq> Inr (JObj d))"
  by (auto simp: ScriptAnalyzer_analyze_script_def split: prod.splits sum.splits json.splits)

text \<open>
  C6, as the code has it. \<^verbatim>\<open>ScriptAnalyzer.analyze_script\<close> calls the collaborator once: the
  world it leaves is the world after that one call. It fails exactly when the call raised
  or the decoded content is not a JSON object. Every JSON object is accepted as it is and
  returned with the three metadata entries added; its \<^verbatim>\<open>overall_score\<close> entry, present or
  not, in range or not, is passed on unchanged.
\<close>

theorem scoring_response_not_validated:
  "snd (ScriptAnalyzer_analyze_script service w s t) = snd (service w s t)
   \<and> (isl (fst (ScriptAnalyzer_analyze_script service w s t))
        \<longleftrightarrow> (\<forall>d. fst (service w s t) \<noteq> Inr (JObj d)))
   \<and> (fst (service w s t) = Inr (JObj d) \<longrightarrow>
        fst (ScriptAnalyzer_analyze_script service w s t) = Inr (add_metadata s d)
        \<and> map_of (add_metadata s d) ''overall_score'' = map_of d ''overall_score'')"
  using analyzer_world [of service w s t] analyzer_fails_iff [of service w s t]
    analyzer_result [of service w s t d "snd (service w s t)"]
    map_of_add_metadata [of "''overall_score''" s d]
  by (cases "service w s t") auto

theorem scoring_response_not_validated_witness:
  "fst (counting_service (Inr out_of_range_response) 0 plain_script ''general'')
     = Inr (JObj [(''overall_score'', JInt 42)])
   \<and> ScriptAnalyzer_analyze_script (counting_service (Inr out_of_range_response)) 0
        plain_script ''general''
      = (Inr (add_metadata plain_script [(''overall_score'', JInt 42)]), 1)
   \<and> map_of (add_metadata plain_script [(''overall_score'', JInt 42)]) ''overall_score''
      = Some (JInt 42)"
proof -
  have h: "fst (counting_service (Inr out_of_range_response) 0 plain_script ''general'')
     = Inr (JObj [(''overall_score'', JInt 42)])"
    by (simp add: counting_service_def out_of_range_response_def)
  show ?thesis
    using h scoring_response_not_validated
      [where service = "counting_service (Inr out_of_range_response)" and w = "0::nat"
         and s = plain_script and t = "''general''" and d = "[(''overall_score'', JInt 42)]"]
    by (cases "ScriptAnalyzer_analyze_script (counting_service (Inr out_of_range_response)) 0
        plain_script ''general''") (simp add: counting_service_def)
qed

text \<open>
  C6, as the specification states it, fails: a response whose only field is an overall
  score of 42 lacks required fields and is out of range, and the analyzer does not fail
  on it.
\<close>

theorem scoring_response_validation_counterexample:
  "\<not> isl (fst (ScriptAnalyzer_analyze_script (counting_service (Inr out_of_range_response)) 0
        plain_script ''general''))"
  by (simp add: ScriptAnalyzer_analyze_script_def counting_service_def out_of_range_response_def)

lemma analyze_try_patterns:
  assumes "fst (service w (script req) (script_type req)) = Inr (JObj d)"
    and "fst (analyze_try service commit req u rows w) = Inr row"
  shows "viral_patterns_detected row = JArr (map JStr (detect_patterns (script req)))
       \<and> viral_patterns_missing row = dict_get d ''viral_patterns_missing'' (JArr [])"
proof -
  obtain w' where sv: "service w (script req) (script_type req) = (Inr (JObj d), w')"
    using assms(1) by (cases "service w (script req) (script_type req)") simp
  let ?r = "setitem ''viral_patterns_detected'' (JArr (map JStr (detect_patterns (script req))))
              (add_metadata (script req) d)"
  have sa: "ScriptAnalyzer_analyze_script service w (script req) (script_type req)
              = (Inr (add_metadata (script req) d), w')"
    by (simp add: ScriptAnalyzer_analyze_script_def sv)
  from assms(2) have b: "build_analysis u req ?r = Inr row"
    by (auto simp: analyze_try_def sa Let_def split: sum.splits option.splits)
  from build_analysis_patterns [OF b] show ?thesis
    by (simp add: dict_get_def map_of_setitem map_of_add_metadata)
qed

text \<open>
  C4, as the code has it. In a stored analysis the detected list is the detector's
  output: a list without repetitions, taken in library order from the six display names.
  The missing list is the \<^verbatim>\<open>viral_patterns_missing\<close> entry of the scoring response, copied
  as it is, or empty when the response has none. The missing list is not computed from
  the detected one.
\<close>

theorem stored_pattern_lists:
  assumes "fst (service w (script req) (script_type req)) = Inr (JObj d)"
    and "response (analyze_script check_rate_limit service commit req u rows w) = Inr row"
  shows "viral_patterns_detected row = JArr (map JStr (detect_patterns (script req)))
       \<and> distinct (detect_patterns (script req))
       \<and> subseq (detect_patterns (script req)) pattern_names
       \<and> json_names (viral_patterns_detected row) \<subseteq> set pattern_names
       \<and> viral_patterns_missing row = dict_get d ''viral_patterns_missing'' (JArr [])"
proof -
  from assms(2) have "fst (analyze_try service commit req u rows w) = Inr row"
    by (auto simp: analyze_script_def split: if_splits prod.splits sum.splits)
  from analyze_try_patterns [OF assms(1) this] show ?thesis
    using detect_patterns_subset [of "script req"] detect_patterns_subseq [of "script req"]
      detect_patterns_distinct [of "script req"]
    by auto
qed

lemma scenario_run_response:
  "response scenario_run =
     Inr \<lparr>user_id = ''u2'',
          script_text = scenario_script,
          stored_script_type = ''general'',
          stored_title = None,
          overall_score = JFloat (17 / 2),
          virality_prediction = JStr ''High'',
          scores = JObj [(''hook'', JInt 9), (''cta'', JInt 7)],
          strengths = JArr [JStr ''Strong hook''],
          weaknesses = JArr [JStr ''CTA feels forced''],
          improvements = JArr [],
          viral_patterns_detected = JArr [JStr ''Personal Story''],
          viral_patterns_missing = JArr [JStr ''Personal Story'', JStr ''Contrarian take''],
          word_count = JInt (int (length (split scenario_script))),
          estimated_duration = JStr (estimate_duration scenario_script),
          estimated_retention = None\<rparr>"
  by (simp add: scenario_run_def analyze_script_def analyze_try_def
      ScriptAnalyzer_analyze_script_def counting_service_def overlapping_response_def
      overlapping_fields_def well_formed_fields_def add_metadata_def Let_def setitem_def
      build_analysis_def then_get_def getitem_def dict_get_def scenario_request_def
      scenario_detection free_plan_check_def user_under_quota_def authorize_def
      default_settings_def)

theorem stored_pattern_lists_witness:
  "fst (counting_service (Inr overlapping_response) 0 (script scenario_request)
         (script_type scenario_request)) = Inr (JObj overlapping_fields)
   \<and> \<not> isl (response scenario_run)
   \<and> detect_patterns (script scenario_request) = [''Personal Story'']
   \<and> viral_patterns_detected (projr (response scenario_run)) = JArr [JStr ''Personal Story'']
   \<and> distinct (detect_patterns (script scenario_request))
   \<and> subseq (detect_patterns (script scenario_request)) pattern_names
   \<and> dict_get overlapping_fields ''viral_patterns_missing'' (JArr [])
       = JArr [JStr ''Personal Story'', JStr ''Contrarian take'']
   \<and> viral_patterns_missing (projr (response scenario_run))
       = JArr [JStr ''Personal Story'', JStr ''Contrarian take'']"
proof -
  have h1: "fst (counting_service (Inr overlapping_response) 0 (script scenario_request)
         (script_type scenario_request)) = Inr (JObj overlapping_fields)"
    by (simp add: counting_service_def overlapping_response_def)
  have h2: "response (analyze_script free_plan_check
        (counting_service (Inr overlapping_response)) None scenario_request user_under_quota
        [] 0)
      = Inr (projr (response scenario_run))"
    by (simp add: scenario_run_response scenario_run_def [symmetric])
  have h3: "detect_patterns (script scenario_request) = [''Personal Story'']"
    by (simp add: scenario_request_def scenario_detection)
  have h4: "dict_get overlapping_fields ''viral_patterns_missing'' (JArr [])
       = JArr [JStr ''Personal Story'', JStr ''Contrarian take'']"
    by (simp add: overlapping_fields_def well_formed_fields_def dict_get_def)
  have h5: "\<not> isl (response scenario_run)"
    by (simp add: scenario_run_response)
  show ?thesis
    using h1 h3 h4 h5 stored_pattern_lists [OF h1 h2] by simp
qed

text \<open>
  C4, as the specification states it, fails: on the scenario script the detector finds the
  personal-story pattern, and the scoring response of this run lists the same pattern,
  next to a name outside the library, as missing. Both lists are stored as they are:
  they overlap, their union is not the set of the six pattern names, and the missing
  list is not the complement of the detected one.
\<close>

theorem stored_pattern_lists_counterexample:
  "\<not> isl (response scenario_run)
   \<and> viral_patterns_detected (projr (response scenario_run)) = JArr [JStr ''Personal Story'']
   \<and> viral_patterns_missing (projr (response scenario_run))
       = JArr [JStr ''Personal Story'', JStr ''Contrarian take'']
   \<and> ''Personal Story'' \<in> json_names (viral_patterns_detected (projr (response scenario_run)))
       \<inter> json_names (viral_patterns_missing (projr (response scenario_run)))
   \<and> json_names (viral_patterns_detected (projr (response scenario_run)))
       \<inter> json_names (viral_patterns_missing (projr (response scenario_run))) \<noteq> {}
   \<and> ''Curiosity Gap'' \<in> set pattern_names
   \<and> ''Curiosity Gap'' \<notin> json_names (viral_patterns_detected (projr (response scenario_run)))
       \<union> json_names (viral_patterns_missing (projr (response scenario_run)))
   \<and> json_names (viral_patterns_detected (projr (response scenario_run)))
       \<union> json_names (viral_patterns_missing (projr (response scenario_run)))
     \<noteq> set pattern_names
   \<and> json_names (viral_patterns_missing (projr (response scenario_run)))
     \<noteq> set pattern_names - json_names (viral_patterns_detected (projr (response scenario_run)))"
proof -
  have m: "''Personal Story'' \<in> json_names (viral_patterns_detected (projr (response scenario_run)))
       \<inter> json_names (viral_patterns_missing (projr (response scenario_run)))"
    by (simp add: scenario_run_response)
  have c: "''Curiosity Gap'' \<in> set pattern_names"
    by (simp add: pattern_names_eval)
  have n: "''Curiosity Gap'' \<notin> json_names (viral_patterns_detected (projr (response scenario_run)))
       \<union> json_names (viral_patterns_missing (projr (response scenario_run)))"
    by (simp add: scenario_run_response)
  have r: "\<not> isl (response scenario_run)
     \<and> viral_patterns_detected (projr (response scenario_run)) = JArr [JStr ''Personal Story'']
     \<and> viral_patterns_missing (projr (response scenario_run))
         = JArr [JStr ''Personal Story'', JStr ''Contrarian take'']"
    by (simp add: scenario_run_response)
  from m c n r show ?thesis
    by blast
qed

section \<open>Properties of the rounding to binary floating point\<close>

lemma round_half_even_ge_floor: "\<lfloor>x\<rfloor> \<le> round_half_even x"
  by (simp add: round_half_even_def Let_def)

lemma round_half_even_le_floor1: "round_half_even x \<le> \<lfloor>x\<rfloor> + 1"
  by (simp add: round_half_even_def Let_def)

lemma round_half_even_error: "\<bar>of_int (round_half_even x) - x\<bar> \<le> 1 / 2"
proof -
  have "of_int \<lfloor>x\<rfloor> \<le> x" "x < of_int \<lfloor>x\<rfloor> + 1" by linarith+
  then show ?thesis
    by (auto simp: round_half_even_def Let_def abs_le_iff)
qed

lemma round_half_even_ge_int: "of_int m \<le> x \<Longrightarrow> m \<le> round_half_even x"
  using round_half_even_ge_floor [of x] le_floor_iff [of m x] by linarith

lemma round_half_even_nearest:
  assumes "of_int t - 1 / 2 < x" "x < of_int t + 1 / 2"
  shows "round_half_even x = t"
proof -
  have e: "\<bar>of_int (round_half_even x) - x\<bar> \<le> 1 / 2" by (rule round_half_even_error)
  have "\<bar>(of_int (round_half_even x) :: rat) - of_int t\<bar> < 1"
    using assms e by linarith
  then have "\<bar>round_half_even x - t\<bar> < 1"
    by (metis of_int_abs of_int_diff of_int_less_1_iff)
  then show ?thesis by simp
qed

lemma ilog2_bounds:
  assumes "0 < q"
  shows "2 powi (ilog2 q) \<le> q \<and> q < 2 powi (ilog2 q + 1)"
proof (cases "1 \<le> q")
  case True
  define n where "n = nat \<lfloor>q\<rfloor>"
  have n: "0 < n" "of_nat n \<le> q" "q < of_nat n + 1"
    using True by (simp_all add: n_def) (linarith+)?
  define f where "f = floorlog 2 n"
  have fb: "2 ^ (f - 1) \<le> n" "n < 2 ^ f"
    using floorlog_bounds [of n 2] n(1) by (simp_all add: f_def)
  have fpos: "0 < f" using n(1) by (simp add: f_def floorlog_def)
  have k: "ilog2 q = int f - 1" using True by (simp add: ilog2_def f_def n_def)
  have p: "(2::rat) powi (ilog2 q) = 2 ^ (f - 1)"
    using fpos by (simp add: k power_int_def nat_diff_distrib)
  have p': "(2::rat) powi (ilog2 q + 1) = 2 ^ f"
    by (simp add: k power_int_def)
  have A: "(2::rat) ^ (f - 1) \<le> of_nat n"
    using fb(1) by (metis of_nat_le_iff of_nat_numeral of_nat_power)
  have B: "(of_nat n :: rat) + 1 \<le> 2 ^ f"
  proof -
    have "n + 1 \<le> 2 ^ f" using fb(2) by simp
    then have "(of_nat (n + 1) :: rat) \<le> of_nat (2 ^ f)" by (simp only: of_nat_le_iff)
    then show ?thesis by simp
  qed
  show ?thesis unfolding p p' using A B n(2,3) by linarith
next
  case False
  define x where "x = 1 / q"
  have x: "1 < x" using False assms by (simp add: x_def)
  define m where "m = nat (\<lceil>x\<rceil> - 1)"
  have c: "2 \<le> \<lceil>x\<rceil>" using x by (simp add: le_ceiling_iff)
  have m: "0 < m" "of_nat m < x" "x \<le> of_nat m + 1"
    using c by (simp_all add: m_def) (linarith+)?
  define f where "f = floorlog 2 m"
  have fb: "2 ^ (f - 1) \<le> m" "m < 2 ^ f"
    using floorlog_bounds [of m 2] m(1) by (simp_all add: f_def)
  have fpos: "0 < f" using m(1) by (simp add: f_def floorlog_def)
  have k: "ilog2 q = - int f" using False by (simp add: ilog2_def f_def m_def x_def)
  have lo: "(2::rat) ^ (f - 1) < x"
  proof -
    have "(2::rat) ^ (f - 1) \<le> of_nat m"
      using fb(1) by (metis of_nat_le_iff of_nat_numeral of_nat_power)
    then show ?thesis using m(2) by linarith
  qed
  have hi: "x \<le> 2 ^ f"
  proof -
    have "m + 1 \<le> 2 ^ f" using fb(2) by simp
    then have "(of_nat (m + 1) :: rat) \<le> of_nat (2 ^ f)" by (simp only: of_nat_le_iff)
    then have "(of_nat m :: rat) + 1 \<le> 2 ^ f" by simp
    then show ?thesis using m(3) by linarith
  qed
  have p1: "(2::rat) powi (ilog2 q) = 1 / 2 ^ f"
    by (simp add: k power_int_minus_divide)
  have "ilog2 q + 1 = - int (f - 1)"
    using fpos by (simp add: k)
  then have p2: "(2::rat) powi (ilog2 q + 1) = 1 / 2 ^ (f - 1)"
    by (simp only: power_int_minus_divide power_int_of_nat)
  have A: "1 / 2 ^ f \<le> q"
    using hi assms by (simp add: x_def field_simps)
  have B: "q < 1 / 2 ^ (f - 1)"
    using lo assms by (simp add: x_def field_simps)
  show ?thesis unfolding p1 p2 using A B by simp
qed

lemma ilog2_less:
  assumes "0 < q" "q < 2 powi j"
  shows "ilog2 q < j"
proof (rule ccontr)
  assume "\<not> ilog2 q < j"
  then have "(2::rat) powi j \<le> 2 powi (ilog2 q)"
    by (intro power_int_increasing) simp_all
  with ilog2_bounds [OF assms(1)] assms(2) show False by linarith
qed

lemma ilog2_ge:
  assumes "0 < q" "2 powi j \<le> q"
  shows "j \<le> ilog2 q"
proof (rule ccontr)
  assume "\<not> j \<le> ilog2 q"
  then have "(2::rat) powi (ilog2 q + 1) \<le> 2 powi j"
    by (intro power_int_increasing) simp_all
  with ilog2_bounds [OF assms(1)] assms(2) show False by linarith
qed

lemma fl_pos:
  "0 < q \<Longrightarrow>
   fl q = of_int (round_half_even (q * 2 powi (52 - ilog2 q))) * 2 powi (ilog2 q - 52)"
  by (simp add: fl_def Let_def)

lemma scale_cancel: "(2::rat) powi (52 - k) * 2 powi (k - 52) = 1"
proof -
  have "(2::rat) powi (52 - k) * 2 powi (k - 52) = 2 powi ((52 - k) + (k - 52))"
    by (subst power_int_add) simp_all
  then show ?thesis by simp
qed

lemma half_scale: "(2::rat) powi (k - 52) / 2 = 2 powi (k - 53)"
proof -
  have "(2::rat) powi (k - 52) = 2 powi ((k - 53) + 1)" by simp
  also have "\<dots> = 2 powi (k - 53) * 2" by (subst power_int_add) simp_all
  finally show ?thesis by simp
qed

lemma pow_scale: "(2::rat) powi k * 2 powi (52 - k) = 2 ^ 52"
proof -
  have "(2::rat) powi k * 2 powi (52 - k) = 2 powi (k + (52 - k))"
    by (subst power_int_add) simp_all
  then show ?thesis by simp
qed

lemma pow_unscale: "(2::rat) ^ 52 * 2 powi (k - 52) = 2 powi k"
proof -
  have "(2::rat) powi 52 * 2 powi (k - 52) = 2 powi (52 + (k - 52))"
    by (subst power_int_add) simp_all
  then show ?thesis by simp
qed

lemma fl_error:
  assumes "0 < q"
  shows "\<bar>fl q - q\<bar> \<le> 2 powi (ilog2 q - 53)"
proof -
  let ?k = "ilog2 q"
  let ?a = "(2::rat) powi (52 - ?k)"
  let ?b = "(2::rat) powi (?k - 52)"
  let ?m = "round_half_even (q * ?a)"
  have ab: "?a * ?b = 1" by (rule scale_cancel)
  have bpos: "0 < ?b" by simp
  have e: "\<bar>of_int ?m - q * ?a\<bar> \<le> 1 / 2" by (rule round_half_even_error)
  have f: "fl q = of_int ?m * ?b" by (rule fl_pos [OF assms])
  have "q = (q * ?a) * ?b" using ab by (simp add: mult.assoc)
  then have "fl q - q = of_int ?m * ?b - (q * ?a) * ?b" using f by simp
  also have "\<dots> = (of_int ?m - q * ?a) * ?b" by (simp add: left_diff_distrib)
  finally have "\<bar>fl q - q\<bar> = \<bar>of_int ?m - q * ?a\<bar> * ?b"
    using bpos by (simp add: abs_mult)
  also have "\<dots> \<le> (1 / 2) * ?b"
    using e bpos by (intro mult_right_mono) simp_all
  also have "\<dots> = 2 powi (?k - 53)"
    using half_scale [of ?k] by simp
  finally show ?thesis .
qed

lemma fl_ge_scaled_int:
  assumes "0 < q" "of_int M \<le> q * 2 powi (52 - ilog2 q)"
  shows "of_int M * 2 powi (ilog2 q - 52) \<le> fl q"
proof -
  have "M \<le> round_half_even (q * 2 powi (52 - ilog2 q))"
    using assms(2) by (rule round_half_even_ge_int)
  then have "(of_int M :: rat) \<le> of_int (round_half_even (q * 2 powi (52 - ilog2 q)))"
    by simp
  then show ?thesis
    unfolding fl_pos [OF assms(1)] by (intro mult_right_mono) simp_all
qed

lemma fl_ge_pow:
  assumes "0 < q"
  shows "2 powi (ilog2 q) \<le> fl q"
proof -
  let ?k = "ilog2 q"
  have "(2::rat) powi ?k * 2 powi (52 - ?k) \<le> q * 2 powi (52 - ?k)"
    using ilog2_bounds [OF assms] by (intro mult_right_mono) simp_all
  then have "(2::rat) ^ 52 \<le> q * 2 powi (52 - ?k)"
    by (simp only: pow_scale)
  moreover have "(of_int (2 ^ 52) :: rat) = 2 ^ 52" by simp
  ultimately have "of_int (2 ^ 52) \<le> q * 2 powi (52 - ?k)" by (simp only:)
  from fl_ge_scaled_int [OF assms this]
  have "(2::rat) ^ 52 * 2 powi (?k - 52) \<le> fl q" by simp
  then show ?thesis by (simp only: pow_unscale)
qed

lemma fl_ge_int:
  assumes "0 < q" "of_int N \<le> q" "ilog2 q \<le> 52"
  shows "of_int N \<le> fl q"
proof -
  let ?k = "ilog2 q"
  let ?a = "(2::rat) powi (52 - ?k)"
  have a: "?a = of_int (2 ^ nat (52 - ?k))"
    using assms(3) by (simp add: power_int_nonneg_exp)
  have "of_int N * ?a \<le> q * ?a"
    using assms(2) by (intro mult_right_mono) simp_all
  moreover have "of_int N * ?a = of_int (N * 2 ^ nat (52 - ?k))"
    by (simp only: a of_int_mult)
  ultimately have "of_int (N * 2 ^ nat (52 - ?k)) \<le> q * ?a" by (simp only:)
  from fl_ge_scaled_int [OF assms(1) this]
  have "of_int N * ?a * 2 powi (?k - 52) \<le> fl q"
    by (simp only: a of_int_mult)
  moreover have "of_int N * ?a * 2 powi (?k - 52) = of_int N"
    using scale_cancel [of ?k] by (simp only: mult.assoc mult_1_right)
  ultimately show ?thesis by (simp only:)
qed

lemma fl_less_one_iff: "fl (of_nat wc / 150) < 1 \<longleftrightarrow> wc < 150"
proof
  assume "wc < 150"
  show "fl (of_nat wc / 150) < 1"
  proof (cases "wc = 0")
    case True then show ?thesis by (simp add: fl_def)
  next
    case False
    define q :: rat where "q = of_nat wc / 150"
    have q: "0 < q" "q \<le> 149 / 150"
      using False \<open>wc < 150\<close> by (simp_all add: q_def)
    have "ilog2 q < 0" using q by (intro ilog2_less) simp_all
    then have "(2::rat) powi (ilog2 q - 53) \<le> 2 powi (- 54)"
      by (intro power_int_increasing) simp_all
    with fl_error [OF q(1)] have "fl q \<le> q + 2 powi (- 54)" by linarith
    then show ?thesis using q(2) by (simp add: q_def [symmetric] power_int_minus)
  qed
next
  assume a: "fl (of_nat wc / 150) < 1"
  show "wc < 150"
  proof (rule ccontr)
    assume "\<not> wc < 150"
    define q :: rat where "q = of_nat wc / 150"
    have q: "1 \<le> q" using \<open>\<not> wc < 150\<close> by (simp add: q_def)
    then have q0: "0 < q" by simp
    have "0 \<le> ilog2 q" using q0 q by (intro ilog2_ge) simp_all
    then have "1 \<le> (2::rat) powi (ilog2 q)" by simp
    with fl_ge_pow [OF q0] a show False by (simp add: q_def)
  qed
qed

lemma fl_zero: "fl 0 = 0"
  by (simp add: fl_def)

lemma fl_upper:
  assumes "0 < q" "q < 2 powi j"
  shows "fl q \<le> q + 2 powi (j - 54)"
proof -
  have "ilog2 q < j" using assms by (rule ilog2_less)
  then have "(2::rat) powi (ilog2 q - 53) \<le> 2 powi (j - 54)"
    by (intro power_int_increasing) simp_all
  with fl_error [OF assms(1)] show ?thesis by linarith
qed

lemma fl_lower:
  assumes "0 < q" "q < 2 powi j"
  shows "q - 2 powi (j - 54) \<le> fl q"
proof -
  have "ilog2 q < j" using assms by (rule ilog2_less)
  then have "(2::rat) powi (ilog2 q - 53) \<le> 2 powi (j - 54)"
    by (intro power_int_increasing) simp_all
  with fl_error [OF assms(1)] show ?thesis by linarith
qed

lemma fl_less_ten_iff: "fl (of_nat wc / 150) < 10 \<longleftrightarrow> wc < 1500"
proof
  assume "wc < 1500"
  show "fl (of_nat wc / 150) < 10"
  proof (cases "wc = 0")
    case True then show ?thesis by (simp add: fl_zero)
  next
    case False
    define q :: rat where "q = of_nat wc / 150"
    have q: "0 < q" "q \<le> 1499 / 150"
      using False \<open>wc < 1500\<close> by (simp_all add: q_def)
    have "q < 2 powi 4" using q(2) by simp
    from fl_upper [OF q(1) this] have "fl q \<le> q + 2 powi (- 50)" by simp
    then show ?thesis using q(2) by (simp add: q_def [symmetric] power_int_minus)
  qed
next
  assume a: "fl (of_nat wc / 150) < 10"
  show "wc < 1500"
  proof (rule ccontr)
    assume n: "\<not> wc < 1500"
    define q :: rat where "q = of_nat wc / 150"
    have q: "of_int 10 \<le> q" using n by (simp add: q_def)
    then have q0: "0 < q" by simp
    show False
    proof (cases "ilog2 q \<le> 52")
      case True
      from fl_ge_int [OF q0 q True] a show False by (simp add: q_def)
    next
      case False
      then have "(2::rat) powi 4 \<le> 2 powi (ilog2 q)"
        by (intro power_int_increasing) simp_all
      with fl_ge_pow [OF q0] a show False by (simp add: q_def)
    qed
  qed
qed

lemma whole_minutes:
  assumes "1500 \<le> wc" "wc < 150 * 2 ^ 46"
  shows "\<lfloor>fl (of_nat wc / 150)\<rfloor> = int (wc div 150)"
proof -
  define q :: rat where "q = of_nat wc / 150"
  define N where "N = wc div 150"
  have "wc = 150 * N + wc mod 150" "wc mod 150 < 150"
    by (simp_all add: N_def)
  then have w: "150 * N \<le> wc" "wc \<le> 150 * N + 149"
    by linarith+
  have q0: "0 < q" using assms(1) by (simp add: q_def)
  have lo: "of_int (int N) \<le> q"
  proof -
    have "(of_nat (150 * N) :: rat) \<le> of_nat wc" using w(1) by (simp only: of_nat_le_iff)
    then show ?thesis by (simp add: q_def)
  qed
  have hi: "q \<le> of_nat N + 149 / 150"
  proof -
    have "(of_nat wc :: rat) \<le> of_nat (150 * N + 149)" using w(2) by (simp only: of_nat_le_iff)
    then show ?thesis by (simp add: q_def)
  qed
  have b: "q < 2 powi 46"
  proof -
    have "(of_nat wc :: rat) < of_nat (150 * 2 ^ 46)" using assms(2) by (simp only: of_nat_less_iff)
    then show ?thesis by (simp add: q_def)
  qed
  have k: "ilog2 q \<le> 52" using ilog2_less [OF q0 b] by simp
  have 1: "of_int (int N) \<le> fl q" by (rule fl_ge_int [OF q0 lo k])
  from fl_upper [OF q0 b] have "fl q \<le> q + 2 powi (- 8)" by simp
  then have 2: "fl q < of_int (int N) + 1" using hi by (simp add: power_int_minus)
  from 1 2 have "\<lfloor>fl q\<rfloor> = int N" by (simp add: floor_unique)
  then show ?thesis by (simp add: q_def N_def)
qed

lemma tenths:
  assumes "150 \<le> wc" "wc < 1500"
  shows "round_half_even (fl (of_nat wc / 150) * 10) = int ((wc * 10 + 75) div 150)"
proof -
  define q :: rat where "q = of_nat wc / 150"
  define t where "t = (wc * 10 + 75) div 150"
  define r where "r = (wc * 10 + 75) mod 150"
  have "r mod 10 = (wc * 10 + 75) mod 10"
    unfolding r_def by (rule mod_mod_cancel) simp
  then have r10: "r mod 10 = 5" by simp
  have r150: "r < 150" by (simp add: r_def)
  have rd: "r = 10 * (r div 10) + 5" using r10 by (metis mult_div_mod_eq)
  have "r div 10 < 15" using r150 by (simp add: div_less_iff_less_mult)
  then have r: "5 \<le> r" "r \<le> 145" using rd by linarith+
  have "wc * 10 + 75 = 150 * t + r" by (simp add: t_def r_def)
  then have w: "150 * t + 5 \<le> wc * 10 + 75 \<and> wc * 10 + 75 \<le> 150 * t + 145"
    using r by linarith
  have q0: "0 < q" using assms(1) by (simp add: q_def)
  have b: "q < 2 powi 4" using assms(2) by (simp add: q_def)
  have lo: "of_nat t - 7 / 15 \<le> q * 10"
  proof -
    have "(of_nat (150 * t + 5) :: rat) \<le> of_nat (wc * 10 + 75)"
      using w by (simp only: of_nat_le_iff)
    then show ?thesis by (simp add: q_def)
  qed
  have hi: "q * 10 \<le> of_nat t + 7 / 15"
  proof -
    have "(of_nat (wc * 10 + 75) :: rat) \<le> of_nat (150 * t + 145)"
      using w by (simp only: of_nat_le_iff)
    then show ?thesis by (simp add: q_def)
  qed
  have e: "(2::rat) powi (- 50) < 1 / 300" by (simp add: power_int_minus)
  from fl_upper [OF q0 b] have u: "fl q \<le> q + 2 powi (- 50)" by simp
  from fl_lower [OF q0 b] have l: "q - 2 powi (- 50) \<le> fl q" by simp
  have "of_int (int t) - 1 / 2 < fl q * 10" using l lo e by simp
  moreover have "fl q * 10 < of_int (int t) + 1 / 2" using u hi e by simp
  ultimately have "round_half_even (fl q * 10) = int t"
    by (rule round_half_even_nearest)
  then show ?thesis by (simp add: q_def t_def)
qed

lemma seconds_table:
  "\<forall>j \<in> set [0..29]. \<lfloor>fl (fl (of_int (5 * j) / 150) * 60)\<rfloor> = 2 * j"
  by code_simp

lemma whole_seconds_multiple:
  assumes "wc < 150" "5 dvd wc"
  shows "\<lfloor>fl (fl (of_nat wc / 150) * 60)\<rfloor> = int (wc * 60 div 150)"
proof -
  obtain j where j: "wc = 5 * j" using assms(2) by (elim dvdE)
  have "int j \<in> set [0..29]" using assms(1) j by simp
  with seconds_table have T: "\<lfloor>fl (fl (of_int (5 * int j) / 150) * 60)\<rfloor> = 2 * int j"
    by blast
  have a: "(of_nat wc :: rat) = of_int (5 * int j)" by (simp add: j)
  have b: "int (wc * 60 div 150) = 2 * int j" by (simp add: j)
  show ?thesis unfolding a b by (rule T)
qed

lemma whole_seconds_other:
  assumes "wc < 150" "\<not> 5 dvd wc"
  shows "\<lfloor>fl (fl (of_nat wc / 150) * 60)\<rfloor> = int (wc * 60 div 150)"
proof -
  define q :: rat where "q = of_nat wc / 150"
  define N where "N = wc * 60 div 150"
  define r where "r = wc * 60 mod 150"
  have "r mod 30 = wc * 60 mod 30"
    unfolding r_def by (rule mod_mod_cancel) simp
  then have r30: "r mod 30 = 0" by simp
  have r150: "r < 150" by (simp add: r_def)
  have rd: "r = 30 * (r div 30)" using r30 by (metis add.right_neutral mult_div_mod_eq)
  have d5: "r div 30 < 5" using r150 by (simp add: div_less_iff_less_mult)
  have e: "wc * 60 = 150 * N + r"
    unfolding N_def r_def by (rule mult_div_mod_eq [symmetric])
  have "r \<noteq> 0"
  proof
    assume "r = 0"
    then have "30 * (2 * wc) = 30 * (5 * N)" using e by simp
    then have "2 * wc = 5 * N" by simp
    then have "5 dvd 2 * wc" by simp
    then have "5 dvd wc" by presburger
    with assms(2) show False by simp
  qed
  then have "1 \<le> r div 30" using rd by (cases "r div 30") simp_all
  then have r: "30 \<le> r" "r \<le> 120" using rd d5 by linarith+
  have w: "150 * N + 30 \<le> wc * 60" "wc * 60 \<le> 150 * N + 120" using e r by linarith+
  have wc0: "0 < wc" using assms(2) by (cases wc) simp_all
  have q0: "0 < q" using wc0 by (simp add: q_def)
  have q1: "q < 2 powi 0" using assms(1) by (simp add: q_def)
  have lo: "of_nat N + 1 / 5 \<le> q * 60"
  proof -
    have "(of_nat (150 * N + 30) :: rat) \<le> of_nat (wc * 60)"
      using w(1) by (simp only: of_nat_le_iff)
    then show ?thesis by (simp add: q_def)
  qed
  have hi: "q * 60 \<le> of_nat N + 4 / 5"
  proof -
    have "(of_nat (wc * 60) :: rat) \<le> of_nat (150 * N + 120)"
      using w(2) by (simp only: of_nat_le_iff)
    then show ?thesis by (simp add: q_def)
  qed
  have N59: "(of_nat N :: rat) \<le> 59"
  proof -
    have "N \<le> 59" using w(1) assms(1) by linarith
    then have "(of_nat N :: rat) \<le> of_nat 59" by (simp only: of_nat_le_iff)
    then show ?thesis by simp
  qed
  have eps: "(2::rat) powi (- 54) < 1 / 6000" "(2::rat) powi (- 48) < 1 / 10"
    by (simp_all add: power_int_minus)
  from fl_upper [OF q0 q1] have u: "fl q \<le> q + 2 powi (- 54)" by simp
  from fl_lower [OF q0 q1] have l: "q - 2 powi (- 54) \<le> fl q" by simp
  define z where "z = fl q * 60"
  have zlo: "of_nat N + 1 / 10 \<le> z" using l lo eps(1) unfolding z_def by linarith
  have zhi: "z \<le> of_nat N + 17 / 20" using u hi eps(1) unfolding z_def by linarith
  have N0: "(0::rat) \<le> of_nat N" by simp
  have z0: "0 < z" using zlo N0 by linarith
  have "z < 64" using zhi N59 by linarith
  then have z6: "z < 2 powi 6" by simp
  have k: "ilog2 z \<le> 52" using ilog2_less [OF z0 z6] by simp
  have zN: "of_int (int N) \<le> z" using zlo by simp
  have 1: "of_int (int N) \<le> fl z" by (rule fl_ge_int [OF z0 zN k])
  from fl_upper [OF z0 z6] have "fl z \<le> z + 2 powi (- 48)" by simp
  then have "fl z < of_nat N + 1" using zhi eps(2) by linarith
  then have 2: "fl z < of_int (int N) + 1" by simp
  from 1 2 have "\<lfloor>fl z\<rfloor> = int N" by (simp add: floor_unique)
  then show ?thesis unfolding z_def q_def N_def .
qed

lemma whole_seconds:
  "wc < 150 \<Longrightarrow> \<lfloor>fl (fl (of_nat wc / 150) * 60)\<rfloor> = int (wc * 60 div 150)"
  using whole_seconds_multiple whole_seconds_other by blast

section \<open>Properties of the word count and the duration estimate\<close>

lemma split_from_no_space:
  "\<forall>c \<in> set word. \<not> is_space c
   \<Longrightarrow> \<forall>w \<in> set (split_from word s). w \<noteq> [] \<and> (\<forall>c \<in> set w. \<not> is_space c)"
proof (induction word s rule: split_from.induct)
  case (1 word)
  then show ?case by simp
next
  case (2 word c cs)
  show ?case
  proof (cases "is_space c")
    case True
    have e: "\<forall>c \<in> set []. \<not> is_space c" by simp
    show ?thesis
    proof (cases "word = []")
      case True
      have eq: "split_from word (c # cs) = split_from [] cs"
        using \<open>is_space c\<close> True by simp
      show ?thesis unfolding eq by (rule "2.IH"(1) [OF \<open>is_space c\<close> True e])
    next
      case False
      have eq: "split_from word (c # cs) = word # split_from [] cs"
        using \<open>is_space c\<close> False by simp
      have "\<forall>w \<in> set (split_from [] cs). w \<noteq> [] \<and> (\<forall>c \<in> set w. \<not> is_space c)"
        by (rule "2.IH"(2) [OF \<open>is_space c\<close> False e])
      then show ?thesis unfolding eq using False "2.prems" by simp
    qed
  next
    case False
    have p: "\<forall>ca \<in> set (word @ [c]). \<not> is_space ca"
      using "2.prems" False by simp
    have eq: "split_from word (c # cs) = split_from (word @ [c]) cs"
      using False by simp
    show ?thesis unfolding eq by (rule "2.IH"(3) [OF False p])
  qed
qed

lemma split_tokens: "\<forall>w \<in> set (split s). w \<noteq> [] \<and> (\<forall>c \<in> set w. \<not> is_space c)"
  unfolding split_def by (rule split_from_no_space) simp

lemma concat_split_from:
  "\<forall>c \<in> set word. \<not> is_space c
   \<Longrightarrow> concat (split_from word s) = word @ filter (\<lambda>c. \<not> is_space c) s"
  by (induction word s rule: split_from.induct) auto

lemma concat_split: "concat (split s) = filter (\<lambda>c. \<not> is_space c) s"
  using concat_split_from [of "[]" s] by (simp add: split_def)

lemma split_repeated_step: "split_from [] (''w '' @ rest) = ''w'' # split_from [] rest"
  by (simp add: is_space_def)

lemma length_split_repeated: "length (split (repeated_word n)) = n"
  unfolding split_def repeated_word_def
  by (induction n) (simp_all add: split_repeated_step del: split_from.simps append.simps, simp)

lemma metadata_entries:
  "map_of (add_metadata s d) ''word_count'' = Some (JInt (int (length (split s))))
   \<and> map_of (add_metadata s d) ''estimated_duration'' = Some (JStr (estimate_duration s))"
  by (simp add: add_metadata_def Let_def setitem_def update_conv')

lemma duration_seconds:
  assumes "length (split s) < 150"
  shows "estimate_duration s = str_nat (length (split s) * 60 div 150) @ '' seconds''"
proof -
  have "nat \<lfloor>fl (fl (of_nat (length (split s)) / 150) * 60)\<rfloor> = length (split s) * 60 div 150"
    unfolding whole_seconds [OF assms] by (rule nat_int)
  then show ?thesis
    using assms unfolding estimate_duration_def Let_def fl_less_one_iff by (simp only: if_True)
qed

lemma duration_tenths:
  assumes "150 \<le> length (split s)" "length (split s) < 1500"
  shows "estimate_duration s =
     str_nat ((length (split s) * 10 + 75) div 150 div 10) @ ''.''
       @ str_nat ((length (split s) * 10 + 75) div 150 mod 10) @ '' minutes''"
proof -
  have n: "\<not> length (split s) < 150" using assms(1) by simp
  have "nat (round_half_even (fl (of_nat (length (split s)) / 150) * 10))
          = (length (split s) * 10 + 75) div 150"
    unfolding tenths [OF assms] by (rule nat_int)
  then have "format_1f (fl (of_nat (length (split s)) / 150)) =
     str_nat ((length (split s) * 10 + 75) div 150 div 10) @ ''.''
       @ str_nat ((length (split s) * 10 + 75) div 150 mod 10)"
    unfolding format_1f_def Let_def by (simp only:)
  then show ?thesis
    using assms(2) n unfolding estimate_duration_def Let_def fl_less_one_iff fl_less_ten_iff
    by (simp only: if_True if_False append_assoc)
qed

lemma duration_minutes_float:
  assumes "1500 \<le> length (split s)"
  shows "estimate_duration s =
     str_nat (nat \<lfloor>fl (of_nat (length (split s)) / 150)\<rfloor>) @ '' minutes''"
proof -
  have n: "\<not> length (split s) < 150" "\<not> length (split s) < 1500" using assms by simp_all
  show ?thesis
    using n unfolding estimate_duration_def Let_def fl_less_one_iff fl_less_ten_iff
    by (simp only: if_False)
qed

lemma duration_minutes:
  assumes "1500 \<le> length (split s)" "length (split s) < 150 * 2 ^ 46"
  shows "estimate_duration s = str_nat (length (split s) div 150) @ '' minutes''"
  unfolding duration_minutes_float [OF assms(1)] whole_minutes [OF assms] nat_int ..

lemma str_nat_values:
  "str_nat 12 = ''12''" "str_nat 1 = ''1''" "str_nat 0 = ''0''" "str_nat 10 = ''10''"
  "str_nat (Suc 0) = ''1''"
  by code_simp+

lemma duration_30:
  assumes "length (split s) = 30"
  shows "estimate_duration s = ''12 seconds''"
proof -
  have "length (split s) < 150" using assms by simp
  from duration_seconds [OF this] show ?thesis
    by (simp add: assms str_nat_values)
qed

lemma duration_150:
  assumes "length (split s) = 150"
  shows "estimate_duration s = ''1.0 minutes''"
proof -
  have "150 \<le> length (split s)" "length (split s) < 1500" using assms by simp_all
  from duration_tenths [OF this] show ?thesis
    by (simp add: assms str_nat_values)
qed

lemma split_example: "split ''one two three'' = [''one'', ''two'', ''three'']"
  by code_simp

lemma split_example_length: "length (split ''one two three'') = 3"
  by (simp add: split_example)

text \<open>
  C7. The stored word count is the number of tokens of \<^verbatim>\<open>script.split()\<close>: the maximal
  runs of non-space characters, which are non-empty, hold no space and together hold
  every non-space character of the script in order. With \<open>n\<close> that number, the estimated
  duration is \<open>n / 150\<close> minutes in binary floating point: below 150 words the whole
  seconds \<open>\<lfloor>60 n / 150\<rfloor>\<close>, from 150 to 1499 words the minutes rounded to one decimal,
  from 1500 words on the whole minutes, which are \<open>\<lfloor>n / 150\<rfloor>\<close> as long as the quotient is
  below \<open>2\<^sup>4\<^sup>6\<close>. The rounding of the two float operations never moves a result across
  a whole number or a half tenth. Thirty words give \<^verbatim>\<open>12 seconds\<close>, 150 words give
  \<^verbatim>\<open>1.0 minutes\<close>, and \<^verbatim>\<open>one two three\<close> has three words.
\<close>

theorem word_count_and_duration:
  assumes "length (split s) = n"
  shows "map_of (add_metadata s d) ''word_count'' = Some (JInt (int n))
       \<and> map_of (add_metadata s d) ''estimated_duration'' = Some (JStr (estimate_duration s))
       \<and> (\<forall>w \<in> set (split s). w \<noteq> [] \<and> (\<forall>c \<in> set w. \<not> is_space c))
       \<and> concat (split s) = filter (\<lambda>c. \<not> is_space c) s
       \<and> (n < 150 \<longrightarrow> estimate_duration s = str_nat (n * 60 div 150) @ '' seconds'')
       \<and> (150 \<le> n \<and> n < 1500 \<longrightarrow>
            estimate_duration s =
              str_nat ((n * 10 + 75) div 150 div 10) @ ''.''
                @ str_nat ((n * 10 + 75) div 150 mod 10) @ '' minutes'')
       \<and> (1500 \<le> n \<longrightarrow>
            estimate_duration s = str_nat (nat \<lfloor>fl (of_nat n / 150)\<rfloor>) @ '' minutes'')
       \<and> (1500 \<le> n \<and> n < 150 * 2 ^ 46 \<longrightarrow>
            estimate_duration s = str_nat (n div 150) @ '' minutes'')
       \<and> (n = 30 \<longrightarrow> estimate_duration s = ''12 seconds'')
       \<and> (n = 150 \<longrightarrow> estimate_duration s = ''1.0 minutes'')
       \<and> split ''one two three'' = [''one'', ''two'', ''three'']
       \<and> length (split ''one two three'') = 3"
proof -
  note l = assms [symmetric]
  have 1: "map_of (add_metadata s d) ''word_count'' = Some (JInt (int n))"
    unfolding l using metadata_entries [of s d] by (rule conjunct1)
  have 2: "map_of (add_metadata s d) ''estimated_duration'' = Some (JStr (estimate_duration s))"
    using metadata_entries [of s d] by (rule conjunct2)
  have 3: "n < 150 \<longrightarrow> estimate_duration s = str_nat (n * 60 div 150) @ '' seconds''"
    unfolding l by (intro impI duration_seconds)
  have 4: "150 \<le> n \<and> n < 1500 \<longrightarrow>
            estimate_duration s =
              str_nat ((n * 10 + 75) div 150 div 10) @ ''.''
                @ str_nat ((n * 10 + 75) div 150 mod 10) @ '' minutes''"
    unfolding l by (intro impI duration_tenths) (erule conjunct1, erule conjunct2)
  have 5: "1500 \<le> n \<longrightarrow>
            estimate_duration s = str_nat (nat \<lfloor>fl (of_nat n / 150)\<rfloor>) @ '' minutes''"
    unfolding l by (intro impI duration_minutes_float)
  have 6: "1500 \<le> n \<and> n < 150 * 2 ^ 46 \<longrightarrow>
            estimate_duration s = str_nat (n div 150) @ '' minutes''"
    unfolding l by (intro impI duration_minutes) (erule conjunct1, erule conjunct2)
  have 7: "n = 30 \<longrightarrow> estimate_duration s = ''12 seconds''"
    unfolding l by (intro impI duration_30)
  have 8: "n = 150 \<longrightarrow> estimate_duration s = ''1.0 minutes''"
    unfolding l by (intro impI duration_150)
  show ?thesis
    by (intro conjI 1 2 split_tokens concat_split 3 4 5 6 7 8 split_example split_example_length)
qed

theorem word_count_and_duration_witness:
  "length (split (repeated_word 30)) = 30
   \<and> estimate_duration (repeated_word 30) = ''12 seconds''
   \<and> length (split (repeated_word 150)) = 150
   \<and> estimate_duration (repeated_word 150) = ''1.0 minutes''
   \<and> length (split (repeated_word 1500)) = 1500
   \<and> estimate_duration (repeated_word 1500) = ''10 minutes''"
proof -
  have a: "estimate_duration (repeated_word 30) = ''12 seconds''"
    using word_count_and_duration [OF length_split_repeated [of 30], of Nil] by blast
  have b: "estimate_duration (repeated_word 150) = ''1.0 minutes''"
    using word_count_and_duration [OF length_split_repeated [of 150], of Nil] by blast
  have "1500 \<le> (1500::nat) \<and> (1500::nat) < 150 * 2 ^ 46" by simp
  then have "estimate_duration (repeated_word 1500) = str_nat (1500 div 150) @ '' minutes''"
    using word_count_and_duration [OF length_split_repeated [of 1500], of Nil] by blast
  then have c: "estimate_duration (repeated_word 1500) = ''10 minutes''"
    by (simp add: str_nat_values)
  show ?thesis
    using a b c by (simp add: length_split_repeated)
qed

end
